theory Spec2Isabelle
  imports Complex_Main
begin

section \<open>Data model of the video feed screen\<close>

text \<open>
  The feed screen is the React component \<open>VideoScroll\<close> together with its two hooks
  \<open>useVideoState\<close> and \<open>useInteractionState\<close> and the module-level component
  \<open>VideoPlayer\<close> (wrapped as \<open>MemoizedVideoPlayer\<close>). Component state becomes a
  record that every handler takes and returns; the backend calls and player commands a
  handler issues are returned next to the new state, in the order issued. Where the
  source branches on \<open>Platform.OS\<close> the model takes the platform as a parameter and
  has both branches.
\<close>

record videoUser =
  username :: string
  avatar_url :: "string option"

text \<open>
  Interface \<open>Video\<close>, as a row of the \<open>videos\<close> table; optional fields are options.
  The feed holds such rows joined with their \<open>user\<close>.
\<close>

record video_row =
  video_id :: string
  title :: string
  description :: string
  video_url :: string
  user_id :: string
  created_at :: string
  like_count :: int
  bookmark_count :: "int option"
  address :: "string option"
  latitude :: "real option"
  longitude :: "real option"

record video = video_row +
  user :: videoUser

text \<open>
  Interface \<open>VideoInteraction\<close>. A field is \<open>None\<close> when the JavaScript object has no
  such property: the spread \<open>{...prev[videoId], isLiked: !isLiked}\<close> over a missing
  entry yields an object with \<open>isLiked\<close> only.
\<close>

record videoInteraction =
  isLiked :: "bool option"
  isBookmarked :: "bool option"

text \<open>Interface \<open>EditVideoData\<close>.\<close>

record editVideoData =
  edit_id :: string
  edit_title :: string
  edit_description :: string
  edit_address :: string
  edit_latitude :: "real option"
  edit_longitude :: "real option"

text \<open>
  One rendered \<open>MemoizedVideoPlayer\<close>, in the list cell \<open>p_index\<close>. Its props are
  \<open>p_video\<close> and \<open>p_isCurrentVideo\<close>. The module-level \<open>VideoPlayer\<close> calls
  \<open>useVideoState()\<close> itself, so it owns a private \<open>isMuted\<close> cell (\<open>p_isMuted\<close>,
  passed to the media element as \<open>isMuted\<close>) and a private ref table
  (\<open>p_videoRefs\<close>: the ids under which it has stored its element).
  \<open>p_playing\<close> is the transport state of its media element.
\<close>

record player =
  p_index :: nat
  p_video :: video
  p_isCurrentVideo :: bool
  p_isMuted :: bool
  p_videoRefs :: "string list"
  p_playing :: bool

text \<open>
  The state of \<open>VideoScroll\<close>: its own \<open>useState\<close> cells, the cells of its
  \<open>useVideoState()\<close> and \<open>useInteractionState()\<close> instances, and the players
  currently mounted by the list. \<open>videoRefs\<close> is the ref table of the screen's own
  \<open>useVideoState()\<close> instance: it maps a video id to the element stored under it,
  an element being named by the cell of its player. The play/pause effect reads this
  table. Its only writer is the ref callback of the \<open>VideoPlayer\<close> declared inside
  \<open>VideoScroll\<close>, which \<open>renderItem\<close> never renders: the list renders
  \<open>MemoizedVideoPlayer\<close>, the memo of the module-level \<open>VideoPlayer\<close>.
\<close>

record screen =
  videos :: "video list"
  loading :: bool
  error :: "string option"
  currentUserId :: "string option"
  currentIndex :: int
  isMuted :: bool
  videoRefs :: "string \<Rightarrow> nat option"
  interactions :: "string \<Rightarrow> videoInteraction option"
  expandedDescriptions :: "string \<Rightarrow> bool option"
  bottomSheetVisible :: bool
  editModalVisible :: bool
  editVideoData :: "editVideoData option"
  locationLoading :: bool
  locationError :: "string option"
  saving :: bool
  players :: "player list"

text \<open>
  Backend mutations issued by the handlers: the like and bookmark rows (video id, user
  id) and the update of a video's editable fields from a draft.
\<close>

datatype mutation =
    DeleteLike string string
  | InsertLike string string
  | DeleteBookmark string string
  | InsertBookmark string string
  | UpdateVideo editVideoData

text \<open>
  The backend's answer to a mutation: \<open>None\<close> when the returned \<open>error\<close> is null,
  \<open>Some msg\<close> otherwise.
\<close>

type_synonym backend = "mutation \<Rightarrow> string option"

section \<open>Interaction handlers\<close>

text \<open>JavaScript truthiness of an optional boolean (\<open>undefined\<close> is falsy).\<close>

definition truthy :: "bool option \<Rightarrow> bool" where
  "truthy b = (b = Some True)"

text \<open>\<open>x || d\<close> on an optional number: \<open>undefined\<close> and \<open>0\<close> are falsy.\<close>

definition or_default :: "int option \<Rightarrow> int \<Rightarrow> int" where
  "or_default x d = (case x of None \<Rightarrow> d | Some n \<Rightarrow> if n = 0 then d else n)"

text \<open>\<open>interactionState.interactions[videoId]?.isLiked\<close> and its bookmark twin.\<close>

definition read_isLiked :: "screen \<Rightarrow> string \<Rightarrow> bool option" where
  "read_isLiked s videoId =
     (case interactions s videoId of None \<Rightarrow> None | Some i \<Rightarrow> isLiked i)"

definition read_isBookmarked :: "screen \<Rightarrow> string \<Rightarrow> bool option" where
  "read_isBookmarked s videoId =
     (case interactions s videoId of None \<Rightarrow> None | Some i \<Rightarrow> isBookmarked i)"

text \<open>
  \<open>handleLike\<close> up to the \<open>await\<close> of its mutation: it returns at once without a
  user; otherwise it reads \<open>isLiked\<close> and issues the delete or the insert. No setter
  is called before the backend answers, so the state this part leaves behind (the state
  seen while the mutation is in flight) is the state it was given. With it come the
  mutation issued and the value of \<open>isLiked\<close> read.
\<close>

definition handleLike_issue :: "string option \<Rightarrow> string \<Rightarrow> screen \<Rightarrow> screen \<times> (mutation \<times> bool option) option" where
  "handleLike_issue usr videoId s =
     (case usr of
        None \<Rightarrow> (s, None)
      | Some uid \<Rightarrow>
          let l = read_isLiked s videoId
          in if truthy l then (s, Some (DeleteLike videoId uid, l))
             else (s, Some (InsertLike videoId uid, l)))"

text \<open>
  \<open>handleLike\<close> after the backend has answered, run on the state of that moment (the
  setters are given updater functions of \<open>prev\<close>). An error is thrown, caught and
  logged; otherwise the counter of every video with that id moves by one and the entry's
  \<open>isLiked\<close> becomes the negation of the value read before the call.
\<close>

definition handleLike_resolve :: "string \<Rightarrow> bool option \<Rightarrow> string option \<Rightarrow> screen \<Rightarrow> screen" where
  "handleLike_resolve videoId l err s =
     (case err of
        Some e \<Rightarrow> s
      | None \<Rightarrow>
          s\<lparr>videos :=
               (if truthy l
                then map (\<lambda>v. if video_id v = videoId
                               then v\<lparr>like_count := like_count v - 1\<rparr> else v) (videos s)
                else map (\<lambda>v. if video_id v = videoId
                               then v\<lparr>like_count := like_count v + 1\<rparr> else v) (videos s)),
             interactions :=
               (interactions s)(videoId \<mapsto>
                  (case interactions s videoId of
                     None \<Rightarrow> \<lparr>isLiked = Some (\<not> truthy l), isBookmarked = None\<rparr>
                   | Some i \<Rightarrow> i\<lparr>isLiked := Some (\<not> truthy l)\<rparr>))\<rparr>)"

text \<open>The whole of \<open>handleLike\<close> with nothing else running in between.\<close>

definition handleLike :: "string option \<Rightarrow> backend \<Rightarrow> string \<Rightarrow> screen \<Rightarrow> screen \<times> mutation list" where
  "handleLike usr be videoId s =
     (case handleLike_issue usr videoId s of
        (s1, None) \<Rightarrow> (s1, [])
      | (s1, Some (m, l)) \<Rightarrow> (handleLike_resolve videoId l (be m) s1, [m]))"

text \<open>\<open>handleBookmark\<close>, split in the same way.\<close>

definition handleBookmark_issue :: "string option \<Rightarrow> string \<Rightarrow> screen \<Rightarrow> screen \<times> (mutation \<times> bool option) option" where
  "handleBookmark_issue usr videoId s =
     (case usr of
        None \<Rightarrow> (s, None)
      | Some uid \<Rightarrow>
          let b = read_isBookmarked s videoId
          in if truthy b then (s, Some (DeleteBookmark videoId uid, b))
             else (s, Some (InsertBookmark videoId uid, b)))"

definition handleBookmark_resolve :: "string \<Rightarrow> bool option \<Rightarrow> string option \<Rightarrow> screen \<Rightarrow> screen" where
  "handleBookmark_resolve videoId b err s =
     (case err of
        Some e \<Rightarrow> s
      | None \<Rightarrow>
          s\<lparr>videos :=
               (if truthy b
                then map (\<lambda>v. if video_id v = videoId
                               then v\<lparr>bookmark_count := Some (or_default (bookmark_count v) 1 - 1)\<rparr>
                               else v) (videos s)
                else map (\<lambda>v. if video_id v = videoId
                               then v\<lparr>bookmark_count := Some (or_default (bookmark_count v) 0 + 1)\<rparr>
                               else v) (videos s)),
             interactions :=
               (interactions s)(videoId \<mapsto>
                  (case interactions s videoId of
                     None \<Rightarrow> \<lparr>isLiked = None, isBookmarked = Some (\<not> truthy b)\<rparr>
                   | Some i \<Rightarrow> i\<lparr>isBookmarked := Some (\<not> truthy b)\<rparr>))\<rparr>)"

definition handleBookmark :: "string option \<Rightarrow> backend \<Rightarrow> string \<Rightarrow> screen \<Rightarrow> screen \<times> mutation list" where
  "handleBookmark usr be videoId s =
     (case handleBookmark_issue usr videoId s of
        (s1, None) \<Rightarrow> (s1, [])
      | (s1, Some (m, b)) \<Rightarrow> (handleBookmark_resolve videoId b (be m) s1, [m]))"

text \<open>
  Presses of the like button and backend answers in any order. A press runs
  \<open>handleLike\<close> up to its \<open>await\<close> and leaves the issued mutation in flight; an
  answer resumes the oldest call in flight. Nothing in the handler or in the button
  looks at the calls in flight.
\<close>

datatype like_event = PressLike string | Answer "string option"

record like_run =
  scr :: screen
  in_flight :: "(string \<times> mutation \<times> bool option) list"

fun like_step :: "string option \<Rightarrow> like_event \<Rightarrow> like_run \<Rightarrow> like_run" where
  "like_step usr (PressLike videoId) r =
     (case handleLike_issue usr videoId (scr r) of
        (s1, None) \<Rightarrow> r\<lparr>scr := s1\<rparr>
      | (s1, Some (m, l)) \<Rightarrow> r\<lparr>scr := s1, in_flight := in_flight r @ [(videoId, m, l)]\<rparr>)"
| "like_step usr (Answer err) r =
     (case in_flight r of
        [] \<Rightarrow> r
      | (videoId, m, l) # rest \<Rightarrow>
          r\<lparr>scr := handleLike_resolve videoId l err (scr r), in_flight := rest\<rparr>)"

definition like_run_of :: "string option \<Rightarrow> like_event list \<Rightarrow> screen \<Rightarrow> like_run" where
  "like_run_of usr evs s = fold (like_step usr) evs \<lparr>scr = s, in_flight = []\<rparr>"

text \<open>
  The consistency the specification asks of a video's counter and the user's flag:
  with \<open>others\<close> likes by other users, every feed entry of that video counts
  \<open>others\<close>, plus one exactly when the user's flag is set.
\<close>

definition like_parity :: "int \<Rightarrow> string \<Rightarrow> screen \<Rightarrow> bool" where
  "like_parity others videoId s =
     list_all (\<lambda>v. if video_id v = videoId
                   then like_count v = others + (if truthy (read_isLiked s videoId) then 1 else 0)
                   else True)
       (videos s)"

section \<open>Saving an edit\<close>

text \<open>
  \<open>saveVideoChanges\<close>: nothing without a draft; otherwise one update is sent. On an
  error the catch sets \<open>locationError\<close>; on success every feed entry with the draft's
  id takes the five draft fields and the modal is closed. \<open>saving\<close> is reset either way.
\<close>

definition saveVideoChanges :: "backend \<Rightarrow> screen \<Rightarrow> screen \<times> mutation list" where
  "saveVideoChanges be s =
     (case editVideoData s of
        None \<Rightarrow> (s, [])
      | Some d \<Rightarrow>
          (case be (UpdateVideo d) of
             Some e \<Rightarrow>
               (s\<lparr>locationError := Some ''Failed to update video'', saving := False\<rparr>,
                [UpdateVideo d])
           | None \<Rightarrow>
               (s\<lparr>videos :=
                    map (\<lambda>v. if video_id v = edit_id d
                              then v\<lparr>title := edit_title d,
                                     description := edit_description d,
                                     address := Some (edit_address d),
                                     latitude := edit_latitude d,
                                     longitude := edit_longitude d\<rparr>
                              else v) (videos s),
                  editModalVisible := False,
                  saving := False\<rparr>,
                [UpdateVideo d])))"

section \<open>Loading the feed\<close>

text \<open>Queries issued while loading, in the order issued.\<close>

datatype query =
    SelectVideos
  | SelectProfile string
  | InsertProfile string
  | SelectLikes string "string list"
  | SelectBookmarks string "string list"

text \<open>
  What the data and auth collaborators answer. A failed profile query carries its error
  code; the other failures carry a message.
\<close>

record collaborators =
  auth_user :: "string option"
  select_videos :: "string + video_row list"
  select_profile :: "string \<Rightarrow> string + videoUser"
  insert_profile :: "string \<Rightarrow> string + videoUser"
  select_likes :: "string \<Rightarrow> string list \<Rightarrow> string + string list"
  select_bookmarks :: "string \<Rightarrow> string list \<Rightarrow> string + string list"

definition fallback_profile :: "string \<Rightarrow> videoUser" where
  "fallback_profile userId = \<lparr>username = ''user_'' @ take 8 userId, avatar_url = None\<rparr>"

definition ensureProfile :: "collaborators \<Rightarrow> string \<Rightarrow> videoUser \<times> query list" where
  "ensureProfile c userId =
     (case select_profile c userId of
        Inr profile \<Rightarrow> (profile, [SelectProfile userId])
      | Inl code \<Rightarrow>
          if code = ''PGRST116''
          then (case insert_profile c userId of
                  Inr newProfile \<Rightarrow> (newProfile, [SelectProfile userId, InsertProfile userId])
                | Inl e \<Rightarrow> (fallback_profile userId, [SelectProfile userId, InsertProfile userId]))
          else (fallback_profile userId, [SelectProfile userId]))"

definition checkUserInteractions :: "collaborators \<Rightarrow> string \<Rightarrow> string list \<Rightarrow> screen \<Rightarrow> screen \<times> query list" where
  "checkUserInteractions c userId videoIds s =
     (case select_likes c userId videoIds of
        Inl e \<Rightarrow> (s, [SelectLikes userId videoIds])
      | Inr likedData \<Rightarrow>
          (case select_bookmarks c userId videoIds of
             Inl e \<Rightarrow> (s, [SelectLikes userId videoIds, SelectBookmarks userId videoIds])
           | Inr bookmarkedData \<Rightarrow>
               (s\<lparr>interactions :=
                    (\<lambda>videoId. if videoId \<in> set videoIds
                                then Some \<lparr>isLiked = Some (videoId \<in> set likedData),
                                           isBookmarked = Some (videoId \<in> set bookmarkedData)\<rparr>
                                else None)\<rparr>,
                [SelectLikes userId videoIds, SelectBookmarks userId videoIds])))"

text \<open>\<open>{...video, user: userData}\<close>.\<close>

definition with_user :: "video_row \<Rightarrow> videoUser \<Rightarrow> video" where
  "with_user r u =
     \<lparr>video_id = video_id r, title = title r, description = description r,
      video_url = video_url r, user_id = user_id r, created_at = created_at r,
      like_count = like_count r, bookmark_count = bookmark_count r,
      address = address r, latitude = latitude r, longitude = longitude r, user = u\<rparr>"

text \<open>
  \<open>loadVideos\<close>. The \<open>finally\<close> block runs on every path, the early return
  included. The profile lookups of \<open>Promise.all\<close> are listed video by video.
\<close>

definition loadVideos :: "collaborators \<Rightarrow> screen \<Rightarrow> screen \<times> query list" where
  "loadVideos c s0 =
     (let s = s0\<lparr>error := None\<rparr> in
      case auth_user c of
        None \<Rightarrow> (s\<lparr>loading := False\<rparr>, [])
      | Some uid \<Rightarrow>
          (case select_videos c of
             Inl e \<Rightarrow> (s\<lparr>error := Some ''Failed to load videos'', loading := False\<rparr>, [SelectVideos])
           | Inr videosData \<Rightarrow>
               let profiles = map (\<lambda>v. ensureProfile c (user_id v)) videosData;
                   videosWithUsers = map (\<lambda>(v, p). with_user v (fst p)) (zip videosData profiles);
                   s1 = s\<lparr>videos := videosWithUsers\<rparr>;
                   (s2, qs) = checkUserInteractions c uid (map video_id videosData) s1
               in (s2\<lparr>loading := False\<rparr>,
                   SelectVideos # concat (map snd profiles) @ qs)))"

definition is_interaction_query :: "query \<Rightarrow> bool" where
  "is_interaction_query q =
     (case q of SelectLikes u ids \<Rightarrow> True | SelectBookmarks u ids \<Rightarrow> True | _ \<Rightarrow> False)"

section \<open>Playback\<close>

text \<open>One entry of the \<open>changed\<close> array the list passes to \<open>onViewableItemsChanged\<close>.\<close>

record viewToken =
  index :: int
  isViewable :: bool

text \<open>
  \<open>handleViewableItemsChanged\<close>. Only \<open>changed[0]\<close> is looked at; on an empty
  array \<open>changed[0].isViewable\<close> raises a TypeError (\<open>None\<close>).
\<close>

definition handleViewableItemsChanged :: "viewToken list \<Rightarrow> screen \<Rightarrow> screen option" where
  "handleViewableItemsChanged changed s =
     (case changed of
        [] \<Rightarrow> None
      | c # _ \<Rightarrow> if isViewable c then Some (s\<lparr>currentIndex := index c\<rparr>) else Some s)"

text \<open>
  \<open>Array.prototype.indexOf\<close>: the first position holding the item, \<open>-1\<close> if none.
  JavaScript compares object identity where this compares values; the two agree on a
  list whose entries differ pairwise, as the rows of a table with a primary key do.
\<close>

fun indexOf_from :: "int \<Rightarrow> 'a list \<Rightarrow> 'a \<Rightarrow> int" where
  "indexOf_from i [] x = -1"
| "indexOf_from i (y # ys) x = (if y = x then i else indexOf_from (i + 1) ys x)"

definition indexOf :: "'a list \<Rightarrow> 'a \<Rightarrow> int" where
  "indexOf xs x = indexOf_from 0 xs x"

text \<open>
  \<open>Platform.OS\<close>. The module-level \<open>VideoPlayer\<close> renders one of two media
  elements. On native it is the \<open>expo-av\<close> component with
  \<open>shouldPlay={isCurrentVideo}\<close>: the prop sets the transport whenever the player
  renders. On web it is \<open><video autoPlay={isCurrentVideo}>\<close>: the attribute starts
  the element that is mounted as the current video; a later render only rewrites the
  attribute, and clearing it does not pause an element that plays. Whether an element
  already mounted starts when a later render sets the attribute is the browser's
  answer, not the source's; \<open>Web\<close> carries it.
\<close>

datatype platform = Native | Web bool

text \<open>
  \<open>renderItem\<close> for the cell at position \<open>i\<close>, mounting a fresh
  \<open>MemoizedVideoPlayer\<close>: the props are the item and whether its position is the
  current index; the player's own \<open>useVideoState()\<close> starts unmuted; the ref callback
  stores the element in the player's own table; \<open>shouldPlay\<close> on native and
  \<open>autoPlay\<close> on web start the transport of the current video. A cell is mounted
  once, and only for a position of the list.
\<close>

definition mountCell :: "platform \<Rightarrow> nat \<Rightarrow> screen \<Rightarrow> screen" where
  "mountCell pf i s =
     (if i < length (videos s) \<and> i \<notin> set (map p_index (players s))
      then let item = videos s ! i;
               cur = (currentIndex s = indexOf (videos s) item)
           in s\<lparr>players := players s @
                  [\<lparr>p_index = i, p_video = item, p_isCurrentVideo = cur, p_isMuted = False,
                    p_videoRefs = [video_id item],
                    p_playing = (case pf of Native \<Rightarrow> cur | Web b \<Rightarrow> cur)\<rparr>]\<rparr>
      else s)"

definition unmountCell :: "nat \<Rightarrow> screen \<Rightarrow> screen" where
  "unmountCell i s = s\<lparr>players := filter (\<lambda>p. p_index p \<noteq> i) (players s)\<rparr>"

text \<open>The comparator given to \<open>React.memo\<close>: true when the player need not render.\<close>

definition memo_equal :: "video \<Rightarrow> bool \<Rightarrow> video \<Rightarrow> bool \<Rightarrow> bool" where
  "memo_equal prevVideo prevCurrent nextVideo nextCurrent =
     (prevCurrent = nextCurrent \<and>
      video_id prevVideo = video_id nextVideo \<and>
      video_url prevVideo = video_url nextVideo)"

text \<open>
  A render of the screen passes every mounted cell through \<open>renderItem\<close> again. A
  player whose props pass the comparator is left alone; the others render. On native
  the rendered \<open>shouldPlay\<close> sets the transport state. On web the rendered
  \<open>autoPlay\<close> leaves an element that plays playing, and starts one that does not
  only if it is set and the browser acts on it. A player's \<open>isMuted\<close> is its own
  cell, which nothing writes. Cells past the end of the list are gone.
\<close>

definition render_player :: "platform \<Rightarrow> screen \<Rightarrow> player \<Rightarrow> player" where
  "render_player pf s p =
     (let item = videos s ! p_index p;
          cur = (currentIndex s = indexOf (videos s) item)
      in if memo_equal (p_video p) (p_isCurrentVideo p) item cur then p
         else p\<lparr>p_video := item, p_isCurrentVideo := cur,
                p_playing := (case pf of
                                Native \<Rightarrow> cur
                              | Web b \<Rightarrow> p_playing p \<or> (cur \<and> b))\<rparr>)"

definition render :: "platform \<Rightarrow> screen \<Rightarrow> screen" where
  "render pf s =
     s\<lparr>players := map (render_player pf s)
                     (filter (\<lambda>p. p_index p < length (videos s)) (players s))\<rparr>"

text \<open>
  Commands the screen sends: to a media element (\<open>playAsync\<close> and \<open>pauseAsync\<close> on
  native, \<open>play\<close> and \<open>pause\<close> on web), or to the global audio session.
\<close>

record audioMode =
  allowsRecordingIOS :: "bool option"
  playsInSilentModeIOS :: "bool option"
  staysActiveInBackground :: "bool option"
  shouldDuckAndroid :: "bool option"
  playThroughEarpieceAndroid :: "bool option"

datatype command =
    PlayAsync nat
  | PauseAsync nat
  | Play nat
  | Pause nat
  | SetAudioModeAsync audioMode

text \<open>
  The effect on \<open>[currentIndex, videos]\<close>: for each video by position, if the screen's
  ref table has an element under the video's id, that element is told to play when the
  position is the current index and to pause otherwise.
\<close>

definition playPauseCommands :: "platform \<Rightarrow> screen \<Rightarrow> command list" where
  "playPauseCommands pf s =
     (if length (videos s) > 0
      then concat (map (\<lambda>(v, i). case videoRefs s (video_id v) of
                                    None \<Rightarrow> []
                                  | Some videoRef \<Rightarrow>
                                      if int i = currentIndex s
                                      then (case pf of
                                              Web b \<Rightarrow> [Play videoRef]
                                            | Native \<Rightarrow> [PlayAsync videoRef])
                                      else (case pf of
                                              Web b \<Rightarrow> [Pause videoRef]
                                            | Native \<Rightarrow> [PauseAsync videoRef]))
                       (zip (videos s) [0 ..< length (videos s)]))
      else [])"

fun exec_command :: "command \<Rightarrow> screen \<Rightarrow> screen" where
  "exec_command (PlayAsync h) s =
     s\<lparr>players := map (\<lambda>p. if p_index p = h then p\<lparr>p_playing := True\<rparr> else p) (players s)\<rparr>"
| "exec_command (PauseAsync h) s =
     s\<lparr>players := map (\<lambda>p. if p_index p = h then p\<lparr>p_playing := False\<rparr> else p) (players s)\<rparr>"
| "exec_command (Play h) s =
     s\<lparr>players := map (\<lambda>p. if p_index p = h then p\<lparr>p_playing := True\<rparr> else p) (players s)\<rparr>"
| "exec_command (Pause h) s =
     s\<lparr>players := map (\<lambda>p. if p_index p = h then p\<lparr>p_playing := False\<rparr> else p) (players s)\<rparr>"
| "exec_command (SetAudioModeAsync m) s = s"

definition playPauseEffect :: "platform \<Rightarrow> screen \<Rightarrow> screen" where
  "playPauseEffect pf s = fold exec_command (playPauseCommands pf s) s"

text \<open>
  The cleanup returned by the mount effect, the only teardown code of the screen: one
  call of \<open>Audio.setAudioModeAsync\<close>.
\<close>

definition cleanup :: "screen \<Rightarrow> screen \<times> command list" where
  "cleanup s =
     (s, [SetAudioModeAsync
            \<lparr>allowsRecordingIOS = None, playsInSilentModeIOS = Some False,
             staysActiveInBackground = Some False, shouldDuckAndroid = None,
             playThroughEarpieceAndroid = None\<rparr>])"

definition is_transport_command :: "command \<Rightarrow> bool" where
  "is_transport_command c =
     (case c of
        PlayAsync h \<Rightarrow> True
      | PauseAsync h \<Rightarrow> True
      | Play h \<Rightarrow> True
      | Pause h \<Rightarrow> True
      | SetAudioModeAsync m \<Rightarrow> False)"

text \<open>
  The ways out of the screen. The screen is a stack route: going back unmounts it, and
  React then runs the cleanup of the mount effect, after which the component and its
  players are gone. \<open>navigateToProfile\<close> pushes another route on top, which leaves the
  screen mounted, and so does sending the app to the background. The screen registers
  no focus, blur or app-state listener, so on these two ways out none of its code runs
  and its state stays as it is.
\<close>

datatype exit_path = Unmount | NavigateAway | AppBackground

definition leave :: "exit_path \<Rightarrow> screen \<Rightarrow> screen option \<times> command list" where
  "leave path s =
     (case path of
        Unmount \<Rightarrow> (None, snd (cleanup s))
      | NavigateAway \<Rightarrow> (Some s, [])
      | AppBackground \<Rightarrow> (Some s, []))"

text \<open>The commands a player would have to be sent to be stopped.\<close>

definition stops :: "nat \<Rightarrow> command list \<Rightarrow> bool" where
  "stops h cs = (PauseAsync h \<in> set cs \<or> Pause h \<in> set cs)"

text \<open>
  What happens to the screen while it is shown: the list reports viewability, mounts
  and unmounts cells, and the mute button is pressed. A report that changes the current
  index renders the screen and then runs the play/pause effect; a handler that raises
  leaves the state as it was. The mute button's handler is
  \<open>setIsMuted(!isMuted)\<close> on the screen's own cell.
\<close>

datatype event =
    ViewableItemsChanged "viewToken list"
  | MountCell nat
  | UnmountCell nat
  | PressMute

fun step :: "platform \<Rightarrow> event \<Rightarrow> screen \<Rightarrow> screen" where
  "step pf (ViewableItemsChanged changed) s =
     (case handleViewableItemsChanged changed s of
        None \<Rightarrow> s
      | Some s' \<Rightarrow> if currentIndex s' = currentIndex s then s'
                   else playPauseEffect pf (render pf s'))"
| "step pf (MountCell i) s = mountCell pf i s"
| "step pf (UnmountCell i) s = unmountCell i s"
| "step pf PressMute s = render pf (s\<lparr>isMuted := \<not> isMuted s\<rparr>)"

definition run :: "platform \<Rightarrow> event list \<Rightarrow> screen \<Rightarrow> screen" where
  "run pf evs s = fold (step pf) evs s"



text \<open>Whether a report names position \<open>k\<close> as its first entry, viewable.\<close>

fun reports :: "nat \<Rightarrow> event \<Rightarrow> bool" where
  "reports k (ViewableItemsChanged (c # cs)) = (isViewable c \<and> index c = int k)"
| "reports k e = False"

section \<open>Sample data\<close>

definition sample_user :: videoUser where
  "sample_user = \<lparr>username = ''ann'', avatar_url = None\<rparr>"

definition sample_row :: "string \<Rightarrow> int \<Rightarrow> video_row" where
  "sample_row i n =
     \<lparr>video_id = i, title = ''t'', description = ''d'', video_url = ''u'' @ i,
      user_id = ''owner'', created_at = ''2025-02-27'', like_count = n,
      bookmark_count = Some 0, address = None, latitude = None, longitude = None\<rparr>"

definition sample_video :: "string \<Rightarrow> int \<Rightarrow> video" where
  "sample_video i n = with_user (sample_row i n) sample_user"

text \<open>The screen's initial \<open>useState\<close> values, with a given list of videos.\<close>

definition screen_with :: "video list \<Rightarrow> screen" where
  "screen_with vs =
     \<lparr>videos = vs, loading = False, error = None, currentUserId = None,
      currentIndex = 0, isMuted = False, videoRefs = Map.empty,
      interactions = Map.empty, expandedDescriptions = Map.empty,
      bottomSheetVisible = False, editModalVisible = False, editVideoData = None,
      locationLoading = False, locationError = None, saving = False, players = []\<rparr>"

definition liked_b :: screen where
  "liked_b =
     (screen_with [sample_video ''b'' 1])
       \<lparr>interactions := [''b'' \<mapsto> \<lparr>isLiked = Some True, isBookmarked = Some False\<rparr>]\<rparr>"

definition sample_draft :: editVideoData where
  "sample_draft =
     \<lparr>edit_id = ''b'', edit_title = ''new title'', edit_description = ''new text'',
      edit_address = ''1 Main St'', edit_latitude = Some 2, edit_longitude = Some 3\<rparr>"

definition editing_b :: screen where
  "editing_b =
     (screen_with [sample_video ''a'' 3, sample_video ''b'' 0])
       \<lparr>editModalVisible := True, editVideoData := Some sample_draft\<rparr>"

definition sample_collaborators :: collaborators where
  "sample_collaborators =
     \<lparr>auth_user = Some ''u1'',
      select_videos = Inr [sample_row ''a'' 3, sample_row ''b'' 0, sample_row ''c'' 1],
      select_profile = (\<lambda>u. Inr sample_user),
      insert_profile = (\<lambda>u. Inr sample_user),
      select_likes = (\<lambda>u ids. Inr [''a'']),
      select_bookmarks = (\<lambda>u ids. Inr [])\<rparr>"


definition failing_likes :: collaborators where
  "failing_likes = sample_collaborators\<lparr>select_likes := (\<lambda>u ids. Inl ''network'')\<rparr>"

section \<open>Playback invariants\<close>

text \<open>
  What every state reached from a freshly loaded screen satisfies, on either platform:
  the screen's own ref table is empty (the players store their elements in their own
  tables), no cell is mounted twice, and each player sits on a position of the list,
  shows that position's video, is current exactly when its position is the current
  index, and is not muted.
\<close>

definition cells_inv :: "screen \<Rightarrow> bool" where
  "cells_inv s =
     (videoRefs s = Map.empty \<and> distinct (map p_index (players s)) \<and>
      list_all (\<lambda>p. p_index p < length (videos s) \<and> p_video p = videos s ! p_index p \<and>
                     p_isCurrentVideo p = (currentIndex s = int (p_index p)) \<and>
                     \<not> p_isMuted p) (players s))"


text \<open>Position \<open>k\<close> is not current and its player, if any, does not play.\<close>

definition idle_at :: "nat \<Rightarrow> screen \<Rightarrow> bool" where
  "idle_at k s =
     (currentIndex s \<noteq> int k \<and>
      list_all (\<lambda>p. if p_index p = k then \<not> p_playing p else True) (players s))"

section \<open>Auxiliary facts\<close>

subsection \<open>Playback\<close>

lemma indexOf_from_nth: "distinct xs \<Longrightarrow> i < length xs \<Longrightarrow> indexOf_from k xs (xs ! i) = k + int i"
proof (induction xs arbitrary: i k)
  case Nil then show ?case by simp
next
  case (Cons a xs)
  show ?case
  proof (cases i)
    case 0 then show ?thesis by simp
  next
    case (Suc j)
    with Cons.prems have "xs ! j \<in> set xs" "a \<notin> set xs" "distinct xs" "j < length xs" by auto
    then have "a \<noteq> xs ! j" by auto
    with Cons.IH[of j "k+1"] \<open>distinct xs\<close> \<open>j < length xs\<close> Suc show ?thesis by simp
  qed
qed

lemma indexOf_nth: "distinct xs \<Longrightarrow> i < length xs \<Longrightarrow> indexOf xs (xs ! i) = int i"
  by (simp add: indexOf_def indexOf_from_nth)


lemma concat_map_Nil: "concat (map (\<lambda>x. []) xs) = []"
  by (induction xs) simp_all

lemma playPauseEffect_no_refs: "videoRefs s = Map.empty \<Longrightarrow> playPauseEffect pf s = s"
  by (simp add: playPauseEffect_def playPauseCommands_def split_def concat_map_Nil)

lemma render_player_index: "p_index (render_player pf s p) = p_index p"
  by (simp add: render_player_def Let_def)

lemma render_player_cell:
  assumes d: "distinct (videos s)"
    and p: "p_index p < length (videos s)" "p_video p = videos s ! p_index p" "\<not> p_isMuted p"
  shows "p_video (render_player pf s p) = videos s ! p_index p
       \<and> p_isCurrentVideo (render_player pf s p) = (currentIndex s = int (p_index p))
       \<and> \<not> p_isMuted (render_player pf s p)"
proof -
  have io: "indexOf (videos s) (videos s ! p_index p) = int (p_index p)"
    using d p(1) by (rule indexOf_nth)
  show ?thesis
    using p io by (auto simp add: render_player_def Let_def memo_equal_def)
qed

lemma render_cells_inv:
  assumes d: "distinct (videos s)" and i: "cells_inv (s\<lparr>currentIndex := c0\<rparr>)"
  shows "cells_inv (render pf s)"
proof -
  have keep: "filter (\<lambda>p. p_index p < length (videos s)) (players s) = players s"
    using i by (simp add: cells_inv_def list_all_iff)
  have idx: "p_index \<circ> render_player pf s = p_index"
    by (rule ext) (simp add: render_player_index)
  have each: "\<And>p. p \<in> set (players s) \<Longrightarrow>
        p_index (render_player pf s p) < length (videos s)
      \<and> p_video (render_player pf s p) = videos s ! p_index (render_player pf s p)
      \<and> p_isCurrentVideo (render_player pf s p)
          = (currentIndex s = int (p_index (render_player pf s p)))
      \<and> \<not> p_isMuted (render_player pf s p)"
  proof -
    fix p assume "p \<in> set (players s)"
    with i have p: "p_index p < length (videos s)" "p_video p = videos s ! p_index p"
        "\<not> p_isMuted p"
      by (auto simp add: cells_inv_def list_all_iff)
    from render_player_cell[OF d p, of pf] p(1)
    show "p_index (render_player pf s p) < length (videos s)
      \<and> p_video (render_player pf s p) = videos s ! p_index (render_player pf s p)
      \<and> p_isCurrentVideo (render_player pf s p)
          = (currentIndex s = int (p_index (render_player pf s p)))
      \<and> \<not> p_isMuted (render_player pf s p)"
      by (simp add: render_player_index)
  qed
  show ?thesis
    using i each unfolding cells_inv_def render_def
    by (simp add: keep idx list_all_iff)
qed

lemma mountCell_cells_inv:
  assumes d: "distinct (videos s)" and i: "cells_inv s"
  shows "cells_inv (mountCell pf k s)"
proof (cases "k < length (videos s) \<and> k \<notin> set (map p_index (players s))")
  case False
  then show ?thesis using i by (auto simp add: mountCell_def)
next
  case True
  then have io: "indexOf (videos s) (videos s ! k) = int k"
    using d by (simp add: indexOf_nth)
  show ?thesis
    using True i io by (auto simp add: mountCell_def cells_inv_def Let_def)
qed

lemma unmountCell_cells_inv: "cells_inv s \<Longrightarrow> cells_inv (unmountCell k s)"
  by (auto simp add: unmountCell_def cells_inv_def list_all_iff distinct_map_filter)

lemma step_videos: "videoRefs s = Map.empty \<Longrightarrow> videos (step pf e s) = videos s"
  by (cases e)
     (auto simp add: handleViewableItemsChanged_def playPauseEffect_no_refs render_def
        mountCell_def unmountCell_def Let_def split: list.splits)

lemma step_cells_inv:
  assumes d: "distinct (videos s)" and i: "cells_inv s"
  shows "cells_inv (step pf e s)"
proof (cases e)
  case (ViewableItemsChanged changed)
  show ?thesis
  proof (cases changed)
    case Nil
    with ViewableItemsChanged i show ?thesis by (simp add: handleViewableItemsChanged_def)
  next
    case (Cons c cs)
    let ?s' = "s\<lparr>currentIndex := index c\<rparr>"
    have "cells_inv (?s'\<lparr>currentIndex := currentIndex s\<rparr>)" using i by simp
    moreover have "distinct (videos ?s')" using d by simp
    ultimately have r: "cells_inv (render pf ?s')" by (rule render_cells_inv[rotated])
    then have "videoRefs (render pf ?s') = Map.empty" by (simp add: cells_inv_def)
    then have "playPauseEffect pf (render pf ?s') = render pf ?s'"
      by (rule playPauseEffect_no_refs)
    with r ViewableItemsChanged Cons i show ?thesis
      by (simp add: handleViewableItemsChanged_def)
  qed
next
  case (MountCell k)
  with d i show ?thesis by (simp add: mountCell_cells_inv)
next
  case (UnmountCell k)
  with i show ?thesis by (simp add: unmountCell_cells_inv)
next
  case PressMute
  let ?s' = "s\<lparr>isMuted := \<not> isMuted s\<rparr>"
  have "cells_inv (?s'\<lparr>currentIndex := currentIndex ?s'\<rparr>)" using i by (simp add: cells_inv_def)
  moreover have "distinct (videos ?s')" using d by simp
  ultimately have "cells_inv (render pf ?s')" by (rule render_cells_inv[rotated])
  with PressMute show ?thesis by simp
qed

lemma screen_with_cells_inv: "cells_inv (screen_with vs)"
  by (simp add: cells_inv_def screen_with_def)

lemma distinct_ids: "distinct (map video_id vs) \<Longrightarrow> distinct vs"
  by (simp add: distinct_map)








lemma render_player_idle:
  assumes "distinct (videos s)" and "p_index p < length (videos s)"
    and "currentIndex s \<noteq> int (p_index p)" and "\<not> p_playing p"
  shows "\<not> p_playing (render_player pf s p)"
proof -
  have io: "indexOf (videos s) (videos s ! p_index p) = int (p_index p)"
    using assms(1,2) by (rule indexOf_nth)
  show ?thesis
    using assms(3,4) io by (cases pf) (simp_all add: render_player_def Let_def)
qed

lemma render_idle_at:
  assumes d: "distinct (videos s)" and c: "cells_inv (s\<lparr>currentIndex := c0\<rparr>)"
    and k: "currentIndex s \<noteq> int k"
    and q: "list_all (\<lambda>p. if p_index p = k then \<not> p_playing p else True) (players s)"
  shows "idle_at k (render pf s)"
proof -
  have keep: "filter (\<lambda>p. p_index p < length (videos s)) (players s) = players s"
    using c by (simp add: cells_inv_def list_all_iff)
  have each: "\<And>p. p \<in> set (players s) \<Longrightarrow> p_index p = k \<Longrightarrow>
      \<not> p_playing (render_player pf s p)"
  proof -
    fix p assume p: "p \<in> set (players s)" and pk: "p_index p = k"
    from c p have l: "p_index p < length (videos s)"
      by (auto simp add: cells_inv_def list_all_iff)
    from q p pk have n: "\<not> p_playing p" by (auto simp add: list_all_iff)
    from k pk have "currentIndex s \<noteq> int (p_index p)" by simp
    with d l n show "\<not> p_playing (render_player pf s p)" by (simp add: render_player_idle)
  qed
  show ?thesis
    using k each unfolding idle_at_def render_def
    by (simp add: keep list_all_iff render_player_index)
qed

lemma mountCell_idle_at:
  assumes d: "distinct (videos s)" and q: "idle_at k s"
  shows "idle_at k (mountCell pf i s)"
proof (cases "i < length (videos s) \<and> i \<notin> set (map p_index (players s))")
  case False
  then show ?thesis using q by (auto simp add: mountCell_def)
next
  case True
  then have io: "indexOf (videos s) (videos s ! i) = int i"
    using d by (simp add: indexOf_nth)
  show ?thesis
    using True q io by (cases pf) (auto simp add: mountCell_def idle_at_def Let_def)
qed

lemma unmountCell_idle_at: "idle_at k s \<Longrightarrow> idle_at k (unmountCell i s)"
  by (auto simp add: unmountCell_def idle_at_def list_all_iff)

lemma step_idle_at:
  assumes d: "distinct (videos s)" and c: "cells_inv s" and q: "idle_at k s"
    and r: "\<not> reports k e"
  shows "idle_at k (step pf e s)"
proof (cases e)
  case (ViewableItemsChanged changed)
  show ?thesis
  proof (cases changed)
    case Nil
    with ViewableItemsChanged q show ?thesis by (simp add: handleViewableItemsChanged_def)
  next
    case (Cons t ts)
    show ?thesis
    proof (cases "isViewable t")
      case False
      with ViewableItemsChanged Cons q show ?thesis
        by (simp add: handleViewableItemsChanged_def)
    next
      case True
      let ?s' = "s\<lparr>currentIndex := index t\<rparr>"
      from r ViewableItemsChanged Cons True have ne: "index t \<noteq> int k" by simp
      have c': "cells_inv (?s'\<lparr>currentIndex := currentIndex s\<rparr>)" using c by simp
      have d': "distinct (videos ?s')" using d by simp
      have k': "currentIndex ?s' \<noteq> int k" using ne by simp
      have q': "list_all (\<lambda>p. if p_index p = k then \<not> p_playing p else True) (players ?s')"
        using q by (simp add: idle_at_def)
      from d' c' k' q' have a: "idle_at k (render pf ?s')" by (rule render_idle_at)
      have "videoRefs (render pf ?s') = Map.empty"
        using c by (simp add: render_def cells_inv_def)
      then have "playPauseEffect pf (render pf ?s') = render pf ?s'"
        by (rule playPauseEffect_no_refs)
      with a q ViewableItemsChanged Cons True show ?thesis
        by (simp add: handleViewableItemsChanged_def)
    qed
  qed
next
  case (MountCell i)
  with d q show ?thesis by (simp add: mountCell_idle_at)
next
  case (UnmountCell i)
  with q show ?thesis by (simp add: unmountCell_idle_at)
next
  case PressMute
  let ?s' = "s\<lparr>isMuted := \<not> isMuted s\<rparr>"
  have c': "cells_inv (?s'\<lparr>currentIndex := currentIndex ?s'\<rparr>)" using c by (simp add: cells_inv_def)
  have d': "distinct (videos ?s')" using d by simp
  have k': "currentIndex ?s' \<noteq> int k" using q by (simp add: idle_at_def)
  have q': "list_all (\<lambda>p. if p_index p = k then \<not> p_playing p else True) (players ?s')"
    using q by (simp add: idle_at_def)
  from d' c' k' q' have "idle_at k (render pf ?s')" by (rule render_idle_at)
  with PressMute show ?thesis by simp
qed

lemma run_idle_at:
  "distinct (videos s) \<Longrightarrow> cells_inv s \<Longrightarrow> idle_at k s \<Longrightarrow>
   \<forall>e \<in> set evs. \<not> reports k e \<Longrightarrow> idle_at k (run pf evs s)"
proof (induction evs arbitrary: s)
  case Nil
  then show ?case by (simp add: run_def)
next
  case (Cons e evs)
  have v: "videos (step pf e s) = videos s"
    using Cons.prems(2) by (simp add: step_videos cells_inv_def)
  have c: "cells_inv (step pf e s)" using Cons.prems(1,2) by (rule step_cells_inv)
  have r: "\<not> reports k e" using Cons.prems(4) by simp
  have q: "idle_at k (step pf e s)" using Cons.prems(1,2,3) r by (rule step_idle_at)
  have "\<forall>e \<in> set evs. \<not> reports k e" using Cons.prems(4) by simp
  with Cons.IH[of "step pf e s"] v c q Cons.prems(1) show ?case by (simp add: run_def)
qed

subsection \<open>Likes\<close>

lemma resolve_videos:
  "videos (handleLike_resolve w l None s) =
     map (\<lambda>v. if video_id v = w then v\<lparr>like_count := like_count v + (if truthy l then - 1 else 1)\<rparr> else v) (videos s)"
  by (cases "truthy l") (simp_all add: handleLike_resolve_def)

lemma resolve_read_same:
  "read_isLiked (handleLike_resolve w l None s) w = Some (\<not> truthy l)"
  by (simp add: handleLike_resolve_def read_isLiked_def split: option.splits)

lemma resolve_read_other:
  "w \<noteq> v \<Longrightarrow> read_isLiked (handleLike_resolve w l None s) v = read_isLiked s v"
  by (simp add: handleLike_resolve_def read_isLiked_def)

lemma parity_map_like_count:
  assumes h: "list_all (\<lambda>x. if video_id x = v then like_count x = a else True) vs"
  shows "list_all (\<lambda>x. if video_id x = v then like_count x = (if w = v then a + d else a) else True)
           (map (\<lambda>y. if video_id y = w then y\<lparr>like_count := like_count y + d\<rparr> else y) vs)"
  unfolding list_all_iff
proof (intro ballI)
  fix x
  assume "x \<in> set (map (\<lambda>y. if video_id y = w then y\<lparr>like_count := like_count y + d\<rparr> else y) vs)"
  then obtain y where y: "y \<in> set vs"
    and x: "x = (if video_id y = w then y\<lparr>like_count := like_count y + d\<rparr> else y)"
    by auto
  from h y have hy: "if video_id y = v then like_count y = a else True"
    unfolding list_all_iff by blast
  show "if video_id x = v then like_count x = (if w = v then a + d else a) else True"
  proof (cases "video_id y = w")
    case True
    with x have x': "x = y\<lparr>like_count := like_count y + d\<rparr>" by simp
    show ?thesis
    proof (cases "w = v")
      case wv: True
      with True hy have "like_count y = a" by simp
      with x' wv True show ?thesis by simp
    next
      case wv: False
      with True x' have "video_id x \<noteq> v" by simp
      then show ?thesis by simp
    qed
  next
    case False
    with x have x': "x = y" by simp
    show ?thesis
    proof (cases "video_id y = v")
      case yv: True
      with hy have "like_count y = a" by simp
      moreover from False yv have "w \<noteq> v" by blast
      ultimately show ?thesis using x' yv by simp
    next
      case yv: False
      with x' show ?thesis by simp
    qed
  qed
qed

lemma resolve_parity_same:
  assumes "like_parity n v s"
  shows "like_parity n v (handleLike_resolve v (read_isLiked s v) None s)"
proof -
  let ?l = "read_isLiked s v"
  let ?a = "n + (if truthy ?l then 1 else 0)"
  let ?d = "if truthy ?l then - 1 else (1::int)"
  have E: "(if v = v then ?a + ?d else ?a) = n + (if truthy (Some (\<not> truthy ?l)) then 1 else 0)"
    by (cases "truthy ?l") (simp_all add: truthy_def)
  have "list_all (\<lambda>x. if video_id x = v then like_count x = ?a else True) (videos s)"
    using assms unfolding like_parity_def .
  from parity_map_like_count[OF this, of v ?d]
  show ?thesis
    unfolding like_parity_def resolve_videos resolve_read_same E .
qed

lemma resolve_parity_other:
  assumes "w \<noteq> v" and "like_parity n v s"
  shows "like_parity n v (handleLike_resolve w l None s)"
proof -
  let ?a = "n + (if truthy (read_isLiked s v) then 1 else 0)"
  let ?d = "if truthy l then - 1 else (1::int)"
  have E: "(if w = v then ?a + ?d else ?a) = ?a"
    using assms(1) by simp
  have "list_all (\<lambda>x. if video_id x = v then like_count x = ?a else True) (videos s)"
    using assms(2) unfolding like_parity_def .
  from parity_map_like_count[OF this, of w ?d]
  show ?thesis
    unfolding like_parity_def resolve_videos resolve_read_other[OF assms(1)] E .
qed

lemma map_like_count_update:
  "map like_count (map (\<lambda>v. if video_id v = w then v\<lparr>like_count := like_count v + d\<rparr> else v) vs)
     = map (\<lambda>v. if video_id v = w then like_count v + d else like_count v) vs"
  by (induction vs) simp_all

subsection \<open>Loading\<close>

lemma ensureProfile_queries: "filter is_interaction_query (snd (ensureProfile c u)) = []"
  by (simp add: ensureProfile_def is_interaction_query_def split: sum.splits)

lemma profile_queries:
  "filter is_interaction_query (concat (map (snd \<circ> (\<lambda>v. ensureProfile c (user_id v))) rows)) = []"
  by (induction rows) (simp_all add: ensureProfile_queries)

lemma checkUserInteractions_queries:
  "snd (checkUserInteractions c uid ids s) =
     (case select_likes c uid ids of
        Inl e \<Rightarrow> [SelectLikes uid ids]
      | Inr liked \<Rightarrow> [SelectLikes uid ids, SelectBookmarks uid ids])"
  by (simp add: checkUserInteractions_def split: sum.splits)

lemma loadVideos_interaction_queries:
  "filter is_interaction_query (snd (loadVideos c s)) =
     (case auth_user c of
        None \<Rightarrow> []
      | Some uid \<Rightarrow>
          (case select_videos c of
             Inl e \<Rightarrow> []
           | Inr rows \<Rightarrow> snd (checkUserInteractions c uid (map video_id rows)
                (s\<lparr>error := None, videos := map (\<lambda>(v, p). with_user v (fst p))
                     (zip rows (map (\<lambda>v. ensureProfile c (user_id v)) rows))\<rparr>))))"
  by (simp add: loadVideos_def Let_def split_def profile_queries is_interaction_query_def
        checkUserInteractions_queries split: option.splits sum.splits)

section \<open>One video plays at a time\<close>




section \<open>Likes are written after the backend answers\<close>

text \<open>
  C2, as the code has it. When a signed-in user toggles the like of a video, the state
  seen while the mutation is in flight is the state before the toggle: nothing is
  written ahead of the answer. The mutation is the delete when \<open>isLiked\<close> was set and
  the insert otherwise. When the backend reports an error the state stays as it was;
  when it reports none, \<open>isLiked\<close> of that video becomes the negation of the value
  read, and \<open>like_count\<close> of that video moves by one (down if it was liked, up
  otherwise) while the other counters stay.
\<close>

theorem handleLike_writes_after_success:
  assumes "handleLike_issue (Some uid) videoId s = (s1, Some (m, l))"
  shows "s1 = s \<and> l = read_isLiked s videoId
     \<and> m = (if truthy l then DeleteLike videoId uid else InsertLike videoId uid)
     \<and> handleLike_resolve videoId l (Some e) s1 = s
     \<and> read_isLiked (handleLike_resolve videoId l None s1) videoId = Some (\<not> truthy l)
     \<and> map like_count (videos (handleLike_resolve videoId l None s1))
         = map (\<lambda>v. if video_id v = videoId
                      then like_count v + (if truthy l then - 1 else 1)
                      else like_count v) (videos s)"
proof -
  from assms have s1: "s1 = s" and l: "l = read_isLiked s videoId"
    and m: "m = (if truthy l then DeleteLike videoId uid else InsertLike videoId uid)"
    by (auto simp add: handleLike_issue_def Let_def split: if_splits)
  have f: "handleLike_resolve videoId l (Some e) s1 = s"
    using s1 by (simp add: handleLike_resolve_def)
  have r: "read_isLiked (handleLike_resolve videoId l None s1) videoId = Some (\<not> truthy l)"
    by (rule resolve_read_same)
  have c: "map like_count (videos (handleLike_resolve videoId l None s1))
         = map (\<lambda>v. if video_id v = videoId
                      then like_count v + (if truthy l then - 1 else 1)
                      else like_count v) (videos s)"
    unfolding resolve_videos s1 by (rule map_like_count_update)
  from s1 l m f r c show ?thesis by blast
qed

theorem handleLike_writes_after_success_witness:
  "read_isLiked (handleLike_resolve ''b'' None None
        (screen_with [sample_video ''a'' 3, sample_video ''b'' 0])) ''b'' = Some True
   \<and> map like_count (videos (handleLike_resolve ''b'' None None
        (screen_with [sample_video ''a'' 3, sample_video ''b'' 0]))) = [3, 1]"
proof -
  have i: "handleLike_issue (Some ''u1'') ''b'' (screen_with [sample_video ''a'' 3, sample_video ''b'' 0])
     = (screen_with [sample_video ''a'' 3, sample_video ''b'' 0], Some (InsertLike ''b'' ''u1'', None))"
    by (simp add: handleLike_issue_def read_isLiked_def screen_with_def truthy_def)
  let ?s = "screen_with [sample_video ''a'' 3, sample_video ''b'' 0]"
  from handleLike_writes_after_success [OF i, of "''network''"]
  have r: "read_isLiked (handleLike_resolve ''b'' None None ?s) ''b'' = Some (\<not> truthy None)"
    and c: "map like_count (videos (handleLike_resolve ''b'' None None ?s))
         = map (\<lambda>v. if video_id v = ''b''
                      then like_count v + (if truthy None then - 1 else 1)
                      else like_count v) (videos ?s)"
    by blast+
  have e: "map (\<lambda>v. if video_id v = ''b''
                      then like_count v + (if truthy None then - 1 else 1)
                      else like_count v) (videos ?s) = [3, 1]"
    by (simp add: screen_with_def truthy_def sample_video_def with_user_def sample_row_def)
  from r c e show ?thesis by (simp add: truthy_def)
qed

text \<open>
  The claim as stated fails: with the insert for video \<open>b\<close> issued and not yet
  answered, \<open>isLiked\<close> of \<open>b\<close> is still unset and the counters are still 3 and 0.
\<close>

theorem like_not_written_while_pending:
  "snd (handleLike_issue (Some ''u1'') ''b'' (screen_with [sample_video ''a'' 3, sample_video ''b'' 0]))
      = Some (InsertLike ''b'' ''u1'', None)
   \<and> read_isLiked (fst (handleLike_issue (Some ''u1'') ''b''
        (screen_with [sample_video ''a'' 3, sample_video ''b'' 0]))) ''b'' = None
   \<and> map like_count (videos (fst (handleLike_issue (Some ''u1'') ''b''
        (screen_with [sample_video ''a'' 3, sample_video ''b'' 0])))) = [3, 0]"
  by (simp add: handleLike_issue_def read_isLiked_def screen_with_def truthy_def
        sample_video_def with_user_def sample_row_def)

section \<open>A failed like leaves the state as it was\<close>

text \<open>
  C3. When the mutation issued by \<open>handleLike\<close> fails, the screen state after the
  handler is the state before it (so \<open>isLiked\<close> and \<open>like_count\<close> of the video have
  their pre-toggle values and nothing else has moved), and the handler has issued exactly
  that one mutation: there is no retry.
\<close>

theorem handleLike_failure_restores:
  assumes "handleLike_issue (Some uid) videoId s = (s1, Some (m, l))"
    and "be m = Some e"
  shows "handleLike (Some uid) be videoId s = (s, [m])"
  using assms
  by (auto simp add: handleLike_def handleLike_resolve_def handleLike_issue_def Let_def
      split: if_splits)

theorem handleLike_failure_restores_witness:
  "handleLike (Some ''u1'') (\<lambda>m. Some ''network'') ''b''
        (screen_with [sample_video ''a'' 3, sample_video ''b'' 0])
      = (screen_with [sample_video ''a'' 3, sample_video ''b'' 0], [InsertLike ''b'' ''u1''])"
proof -
  have i: "handleLike_issue (Some ''u1'') ''b'' (screen_with [sample_video ''a'' 3, sample_video ''b'' 0])
     = (screen_with [sample_video ''a'' 3, sample_video ''b'' 0], Some (InsertLike ''b'' ''u1'', None))"
    by (simp add: handleLike_issue_def read_isLiked_def screen_with_def truthy_def)
  have b: "(\<lambda>m. Some ''network'') (InsertLike ''b'' ''u1'') = Some ''network''"
    by simp
  show ?thesis
    using handleLike_failure_restores [OF i b] by simp
qed

section \<open>Overlapping likes\<close>

text \<open>
  C4, as the code has it. A toggle that runs from its press to the backend's answer
  with no other toggle in between keeps the counter and the flag consistent, for the
  video toggled and for every other video: if each feed entry of video \<open>v\<close> counted
  the other users' likes plus one exactly when the user's flag was set, that still
  holds afterwards, whatever the backend answered. The handler itself neither rejects
  nor queues a press made while an earlier one is in flight.
\<close>

theorem settled_toggle_keeps_parity:
  assumes "like_parity n v s"
  shows "like_parity n v (fst (handleLike usr be w s))"
proof (cases usr)
  case None
  with assms show ?thesis by (simp add: handleLike_def handleLike_issue_def)
next
  case (Some uid)
  let ?l = "read_isLiked s w"
  let ?m = "if truthy ?l then DeleteLike w uid else InsertLike w uid"
  have iss: "handleLike_issue usr w s = (s, Some (?m, ?l))"
    using Some by (simp add: handleLike_issue_def Let_def)
  show ?thesis
  proof (cases "be ?m")
    case (Some e)
    with iss assms show ?thesis by (simp add: handleLike_def handleLike_resolve_def)
  next
    case None
    have res: "fst (handleLike usr be w s) = handleLike_resolve w ?l None s"
      using iss None by (simp add: handleLike_def)
    show ?thesis
    proof (cases "w = v")
      case False
      from False assms show ?thesis unfolding res by (rule resolve_parity_other)
    next
      case True
      with assms show ?thesis unfolding res by (simp add: resolve_parity_same)
    qed
  qed
qed

theorem settled_toggle_keeps_parity_witness:
  "like_parity 0 ''b'' liked_b
   \<and> like_parity 0 ''b'' (fst (handleLike (Some ''u1'') (\<lambda>m. None) ''b'' liked_b))
   \<and> map like_count (videos (fst (handleLike (Some ''u1'') (\<lambda>m. None) ''b'' liked_b))) = [0]"
proof -
  have p: "like_parity 0 ''b'' liked_b"
    by code_simp
  have c: "map like_count (videos (fst (handleLike (Some ''u1'') (\<lambda>m. None) ''b'' liked_b))) = [0]"
    by code_simp
  from settled_toggle_keeps_parity [OF p] p c show ?thesis by simp
qed

text \<open>
  The claim as stated fails: the user has liked \<open>b\<close>, which counts 1. Two presses
  before any answer both read \<open>isLiked = true\<close> and both issue the delete; both
  deletes succeed, and the counter ends at \<open>-1\<close> with the flag cleared.
\<close>

theorem overlapping_unlikes_break_parity:
  "like_parity 0 ''b'' liked_b
   \<and> \<not> like_parity 0 ''b''
        (scr (like_run_of (Some ''u1'')
           [PressLike ''b'', PressLike ''b'', Answer None, Answer None] liked_b))
   \<and> map like_count (videos (scr (like_run_of (Some ''u1'')
        [PressLike ''b'', PressLike ''b'', Answer None, Answer None] liked_b))) = [- 1]
   \<and> read_isLiked (scr (like_run_of (Some ''u1'')
        [PressLike ''b'', PressLike ''b'', Answer None, Answer None] liked_b)) ''b'' = Some False"
  by code_simp

section \<open>The mute button\<close>

text \<open>
  C5 at a concrete input. One video, its player mounted, the mute button pressed once:
  the screen's \<open>isMuted\<close> is set, the player still renders unmuted. A player mounted
  after the press renders unmuted as well. This is so on native and on web.
\<close>

theorem mute_not_honoured:
  "isMuted (run Native [MountCell 0, PressMute] (screen_with [sample_video ''a'' 3]))
   \<and> map p_isMuted (players (run Native [MountCell 0, PressMute] (screen_with [sample_video ''a'' 3])))
       = [False]
   \<and> isMuted (run Native [PressMute, MountCell 0] (screen_with [sample_video ''a'' 3]))
   \<and> map p_isMuted (players (run Native [PressMute, MountCell 0] (screen_with [sample_video ''a'' 3])))
       = [False]
   \<and> isMuted (run (Web True) [MountCell 0, PressMute] (screen_with [sample_video ''a'' 3]))
   \<and> map p_isMuted (players (run (Web True) [MountCell 0, PressMute] (screen_with [sample_video ''a'' 3])))
       = [False]
   \<and> isMuted (run (Web False) [PressMute, MountCell 0] (screen_with [sample_video ''a'' 3]))
   \<and> map p_isMuted (players (run (Web False) [PressMute, MountCell 0] (screen_with [sample_video ''a'' 3])))
       = [False]"
  by code_simp

section \<open>Pages passed during a fling\<close>

text \<open>
  C6, as the code has it. The handler has no notion of settling: the current index
  moves to whatever position a report names as its first entry, viewable, and only the
  player at the current index is ever started. So on either platform, over a feed whose
  videos have pairwise different ids, a position other than 0 that no report of the run
  names this way has no playing player at any point of the run.
\<close>

theorem unreported_page_never_plays:
  assumes "distinct (map video_id vs)" and "k \<noteq> 0" and "\<forall>e \<in> set evs. \<not> reports k e"
  shows "\<forall>n \<le> length evs. \<forall>p \<in> set (players (run pf (take n evs) (screen_with vs))).
           p_index p = k \<longrightarrow> \<not> p_playing p"
proof (intro allI impI ballI)
  fix n p
  assume n: "n \<le> length evs"
    and p: "p \<in> set (players (run pf (take n evs) (screen_with vs)))" and k: "p_index p = k"
  have d: "distinct (videos (screen_with vs))"
    using assms(1) by (simp add: screen_with_def distinct_ids)
  have q: "idle_at k (screen_with vs)"
    using assms(2) by (simp add: idle_at_def screen_with_def)
  have "\<forall>e \<in> set (take n evs). \<not> reports k e"
    using assms(3) by (meson in_set_takeD)
  with d screen_with_cells_inv q
  have "idle_at k (run pf (take n evs) (screen_with vs))" by (rule run_idle_at)
  with p k show "\<not> p_playing p" by (auto simp add: idle_at_def list_all_iff)
qed

theorem unreported_page_never_plays_witness:
  "\<not> p_playing (players
        (run Native [MountCell 0, MountCell 1, MountCell 2,
              ViewableItemsChanged [\<lparr>index = 2, isViewable = True\<rparr>,
                                    \<lparr>index = 0, isViewable = False\<rparr>]]
           (screen_with [sample_video ''a'' 3, sample_video ''b'' 0, sample_video ''c'' 1])) ! 1)
   \<and> \<not> p_playing (players
        (run (Web True) [MountCell 0, MountCell 1, MountCell 2,
              ViewableItemsChanged [\<lparr>index = 2, isViewable = True\<rparr>,
                                    \<lparr>index = 0, isViewable = False\<rparr>]]
           (screen_with [sample_video ''a'' 3, sample_video ''b'' 0, sample_video ''c'' 1])) ! 1)"
proof -
  let ?vs = "[sample_video ''a'' 3, sample_video ''b'' 0, sample_video ''c'' 1]"
  let ?evs = "[MountCell 0, MountCell 1, MountCell 2,
              ViewableItemsChanged [\<lparr>index = 2, isViewable = True\<rparr>,
                                    \<lparr>index = 0, isViewable = False\<rparr>]]"
  have d: "distinct (map video_id ?vs)"
    by (simp add: sample_video_def with_user_def sample_row_def)
  have k: "(1::nat) \<noteq> 0" by simp
  have h: "\<forall>e \<in> set ?evs. \<not> reports 1 e" by simp
  have n: "4 \<le> length ?evs" by simp
  have len: "length (players (run Native ?evs (screen_with ?vs))) = 3" by code_simp
  have idx: "p_index (players (run Native ?evs (screen_with ?vs)) ! 1) = 1" by code_simp
  have mem: "players (run Native ?evs (screen_with ?vs)) ! 1
      \<in> set (players (run Native (take 4 ?evs) (screen_with ?vs)))"
    using len by simp
  have lenw: "length (players (run (Web True) ?evs (screen_with ?vs))) = 3" by code_simp
  have idxw: "p_index (players (run (Web True) ?evs (screen_with ?vs)) ! 1) = 1" by code_simp
  have memw: "players (run (Web True) ?evs (screen_with ?vs)) ! 1
      \<in> set (players (run (Web True) (take 4 ?evs) (screen_with ?vs)))"
    using lenw by simp
  from unreported_page_never_plays [OF d k h, rule_format, OF n mem idx]
       unreported_page_never_plays [OF d k h, rule_format, OF n memw idxw]
  show ?thesis by blast
qed

text \<open>
  The claim as stated fails whenever the list reports the page passed: with three
  cells mounted, a report naming position 1 (on the way from 0 to 2) sets the player of
  position 1 playing, before any report for position 2 arrives.
\<close>

theorem passed_page_plays:
  "p_playing (players
      (run Native [MountCell 0, MountCell 1, MountCell 2,
            ViewableItemsChanged [\<lparr>index = 1, isViewable = True\<rparr>,
                                  \<lparr>index = 0, isViewable = False\<rparr>]]
         (screen_with [sample_video ''a'' 3, sample_video ''b'' 0, sample_video ''c'' 1])) ! 1)"
  by code_simp

section \<open>Teardown\<close>

text \<open>
  C7, as the code has it. On every way out of the screen, no command goes to any
  player: none is stopped. On unmount the cleanup issues exactly one command, which
  sets the global audio mode to \<open>playsInSilentModeIOS = false\<close> and
  \<open>staysActiveInBackground = false\<close>, and the screen is gone. On navigation away
  and on app backgrounding no command is issued at all, the audio mode is not reset,
  and the screen stays as it is.
\<close>

theorem leave_commands:
  "snd (leave path s) =
     (if path = Unmount
      then [SetAudioModeAsync
              \<lparr>allowsRecordingIOS = None, playsInSilentModeIOS = Some False,
               staysActiveInBackground = Some False, shouldDuckAndroid = None,
               playThroughEarpieceAndroid = None\<rparr>]
      else [])
   \<and> filter is_transport_command (snd (leave path s)) = []
   \<and> \<not> stops h (snd (leave path s))
   \<and> fst (leave path s) = (if path = Unmount then None else Some s)"
  by (cases path) (simp_all add: leave_def cleanup_def is_transport_command_def stops_def)

text \<open>
  The claim as stated fails: with one player mounted, in cell 0, the unmount sends it
  no stop, and navigation away and app backgrounding send nothing at all, so neither a
  stop nor the audio reset.
\<close>

theorem no_exit_stops_players:
  "map p_index (players (run Native [MountCell 0] (screen_with [sample_video ''a'' 3]))) = [0]
   \<and> \<not> stops 0 (snd (leave Unmount (run Native [MountCell 0] (screen_with [sample_video ''a'' 3]))))
   \<and> snd (leave NavigateAway (run Native [MountCell 0] (screen_with [sample_video ''a'' 3]))) = []
   \<and> snd (leave AppBackground (run Native [MountCell 0] (screen_with [sample_video ''a'' 3]))) = []"
  by code_simp

section \<open>Interaction queries on load\<close>

text \<open>
  C8, as the code has it. Whatever the collaborators answer and however many videos
  there are, \<open>loadVideos\<close> issues at most two interaction queries. When a user is
  signed in and the videos arrive, it issues exactly one liked-set query, for that user
  and restricted to the list of the loaded videos' ids; after it, exactly one
  bookmarked-set query with the same restriction when the liked-set query was answered,
  and none when the liked-set query failed. (The profile lookups, one or two per
  video, are not interaction queries.)
\<close>

theorem interaction_queries_on_load:
  "length (filter is_interaction_query (snd (loadVideos c s))) \<le> 2
   \<and> (auth_user c = Some uid \<and> select_videos c = Inr rows
      \<longrightarrow> filter is_interaction_query (snd (loadVideos c s))
            = SelectLikes uid (map video_id rows)
              # (case select_likes c uid (map video_id rows) of
                   Inl e \<Rightarrow> []
                 | Inr liked \<Rightarrow> [SelectBookmarks uid (map video_id rows)]))"
  by (simp add: loadVideos_interaction_queries checkUserInteractions_queries
        split: option.splits sum.splits)

theorem interaction_queries_on_load_witness:
  "filter is_interaction_query (snd (loadVideos sample_collaborators (screen_with [])))
     = [SelectLikes ''u1'' [''a'', ''b'', ''c''], SelectBookmarks ''u1'' [''a'', ''b'', ''c'']]
   \<and> length (snd (loadVideos sample_collaborators (screen_with []))) = 6"
proof -
  have a: "auth_user sample_collaborators = Some ''u1''"
    by (simp add: sample_collaborators_def)
  have v: "select_videos sample_collaborators
      = Inr [sample_row ''a'' 3, sample_row ''b'' 0, sample_row ''c'' 1]"
    by (simp add: sample_collaborators_def)
  have l: "select_likes sample_collaborators ''u1''
       (map video_id [sample_row ''a'' 3, sample_row ''b'' 0, sample_row ''c'' 1]) = Inr [''a'']"
    by (simp add: sample_collaborators_def)
  have n: "length (snd (loadVideos sample_collaborators (screen_with []))) = 6"
    by code_simp
  from interaction_queries_on_load [of sample_collaborators "screen_with []" "''u1''"
      "[sample_row ''a'' 3, sample_row ''b'' 0, sample_row ''c'' 1]"] a v l n
  show ?thesis by (simp add: sample_row_def)
qed

text \<open>
  The claim as stated fails: three videos load, the liked-set query fails, and the
  liked-set query is the only interaction query issued.
\<close>

theorem likes_error_skips_bookmarks:
  "map video_id (videos (fst (loadVideos failing_likes (screen_with [])))) = [''a'', ''b'', ''c'']
   \<and> filter is_interaction_query (snd (loadVideos failing_likes (screen_with [])))
       = [SelectLikes ''u1'' [''a'', ''b'', ''c'']]"
  by code_simp

section \<open>Saving an edit draft\<close>

text \<open>
  C9. With the edit modal open on a draft, \<open>saveVideoChanges\<close> sends one update and
  nothing else. When the backend reports an error, the modal is still open, the draft
  is still there, an error message is set and the feed's videos are unchanged. When it
  reports none, the modal is closed and the feed's videos are the old ones with title,
  description, address, latitude and longitude of the videos carrying the draft's id
  replaced by the draft's; every other video is the same.
\<close>

theorem saveVideoChanges_outcomes:
  assumes "editVideoData s = Some d" and "editModalVisible s"
  shows "(be (UpdateVideo d) \<noteq> None \<longrightarrow>
            editModalVisible (fst (saveVideoChanges be s))
          \<and> editVideoData (fst (saveVideoChanges be s)) = Some d
          \<and> locationError (fst (saveVideoChanges be s)) = Some ''Failed to update video''
          \<and> videos (fst (saveVideoChanges be s)) = videos s
          \<and> snd (saveVideoChanges be s) = [UpdateVideo d])
       \<and> (be (UpdateVideo d) = None \<longrightarrow>
            \<not> editModalVisible (fst (saveVideoChanges be s))
          \<and> videos (fst (saveVideoChanges be s))
              = map (\<lambda>v. if video_id v = edit_id d
                          then v\<lparr>title := edit_title d, description := edit_description d,
                                 address := Some (edit_address d), latitude := edit_latitude d,
                                 longitude := edit_longitude d\<rparr>
                          else v) (videos s)
          \<and> snd (saveVideoChanges be s) = [UpdateVideo d])"
  using assms by (auto simp add: saveVideoChanges_def split: option.splits)

theorem saveVideoChanges_outcomes_witness:
  "editModalVisible (fst (saveVideoChanges (\<lambda>m. Some ''timeout'') editing_b))
   \<and> editVideoData (fst (saveVideoChanges (\<lambda>m. Some ''timeout'') editing_b)) = Some sample_draft
   \<and> locationError (fst (saveVideoChanges (\<lambda>m. Some ''timeout'') editing_b))
       = Some ''Failed to update video''
   \<and> map title (videos (fst (saveVideoChanges (\<lambda>m. Some ''timeout'') editing_b))) = [''t'', ''t'']
   \<and> \<not> editModalVisible (fst (saveVideoChanges (\<lambda>m. None) editing_b))
   \<and> map title (videos (fst (saveVideoChanges (\<lambda>m. None) editing_b))) = [''t'', ''new title'']
   \<and> map latitude (videos (fst (saveVideoChanges (\<lambda>m. None) editing_b))) = [None, Some 2]"
proof -
  have d: "editVideoData editing_b = Some sample_draft"
    by (simp add: editing_b_def)
  have o: "editModalVisible editing_b"
    by (simp add: editing_b_def)
  have v: "videos editing_b = [sample_video ''a'' 3, sample_video ''b'' 0]"
    by (simp add: editing_b_def screen_with_def)
  from saveVideoChanges_outcomes [OF d o, of "\<lambda>m. Some ''timeout''"]
       saveVideoChanges_outcomes [OF d o, of "\<lambda>m. None"]
  show ?thesis
    by (simp add: v sample_video_def with_user_def sample_row_def sample_draft_def)
qed

section \<open>No user, no toggle\<close>

text \<open>
  C10. Without an authenticated user, \<open>handleLike\<close> and \<open>handleBookmark\<close> return the
  screen state as it was (every counter and every interaction flag included) and issue no
  backend mutation.
\<close>

theorem no_user_no_op:
  "handleLike None be videoId s = (s, []) \<and> handleBookmark None be videoId s = (s, [])"
  by (simp add: handleLike_def handleLike_issue_def handleBookmark_def handleBookmark_issue_def)

end
